theory Spec2Isabelle
  imports Main
begin

section \<open>Data model (types.ts)\<close>

text \<open>
  A \<open>Date\<close> is modelled by its epoch value in milliseconds (\<open>getTime()\<close>).
  Optional fields (\<open>field?: T\<close>) are \<open>option\<close> values, \<open>None\<close> standing for
  \<open>undefined\<close>.  Strings are byte strings.
\<close>

type_synonym instant = int

datatype TaskScope = ScopeGlobal | ScopeWorkspace

datatype PromptSource = Inline | LocalFile | GlobalFile

record ScheduledTask =
  task_id :: string
  name :: string
  cronExpression :: string
  prompt :: string
  enabled :: bool
  agent :: "string option"
  model :: "string option"
  scope :: TaskScope
  workspacePath :: "string option"
  promptSource :: PromptSource
  promptPath :: "string option"
  lastRun :: "instant option"
  nextRun :: "instant option"
  createdAt :: instant
  updatedAt :: instant

text \<open>\<open>CreateTaskInput\<close>; the fields carry the suffix \<open>_in\<close>.\<close>

record CreateTaskInput =
  name_in :: string
  cronExpression_in :: string
  prompt_in :: string
  enabled_in :: "bool option"
  agent_in :: "string option"
  model_in :: "string option"
  scope_in :: "TaskScope option"
  runFirstInOneMinute_in :: "bool option"
  promptSource_in :: "PromptSource option"
  promptPath_in :: "string option"

text \<open>\<open>Partial<CreateTaskInput>\<close>: every field may be absent; suffix \<open>_upd\<close>.\<close>

record TaskUpdates =
  name_upd :: "string option"
  cronExpression_upd :: "string option"
  prompt_upd :: "string option"
  enabled_upd :: "bool option"
  agent_upd :: "string option"
  model_upd :: "string option"
  scope_upd :: "TaskScope option"
  runFirstInOneMinute_upd :: "bool option"
  promptSource_upd :: "PromptSource option"
  promptPath_upd :: "string option"

text \<open>
  The JSON shape of a task inside \<open>globalState\<close>.  A \<open>Date\<close> is written by
  \<open>JSON.stringify\<close> as its ISO-8601 string, which carries the millisecond value and is
  read back by \<open>new Date(string)\<close>; the string is represented by the instant it denotes.
  Records written by older versions may lack \<open>scope\<close> and \<open>promptSource\<close>.
\<close>

datatype SerializedDate = IsoString instant

record StoredTask =
  s_id :: string
  s_name :: string
  s_cronExpression :: string
  s_prompt :: string
  s_enabled :: bool
  s_agent :: "string option"
  s_model :: "string option"
  s_scope :: "TaskScope option"
  s_workspacePath :: "string option"
  s_promptSource :: "PromptSource option"
  s_promptPath :: "string option"
  s_lastRun :: "SerializedDate option"
  s_nextRun :: "SerializedDate option"
  s_createdAt :: SerializedDate
  s_updatedAt :: SerializedDate

datatype Error = InvalidExpression

section \<open>The host: clock, configuration, workspace and the cron library\<close>

text \<open>
  \<open>parseExpression\<close> of the package \<open>cron-parser\<close> is a parameter of the model.
  It is given the expression and the options built by the caller; \<open>None\<close> means that it
  throws, otherwise it yields the interval, of which only \<open>interval.next().toDate()\<close> is
  ever used: \<open>Some d\<close>, or \<open>None\<close> when \<open>next()\<close> throws.
\<close>

record CronOptions =
  currentDate :: instant
  tz :: "string option"

type_synonym CronInterval = "instant option"

text \<open>
  What an operation reads from its surroundings: \<open>new Date()\<close> (one reading per operation),
  the six characters taken from \<open>Math.random()\<close>, the settings \<open>promptPilot.enabled\<close>,
  \<open>promptPilot.timezone\<close> and \<open>promptPilot.defaultScope\<close>, and
  \<open>vscode.workspace.workspaceFolders?.[0]?.uri.fsPath\<close>.
\<close>

record Host =
  clock :: instant
  randomSuffix :: string
  cfg_enabled :: bool
  cfg_timezone :: string
  cfg_defaultScope :: TaskScope
  workspaceFolder :: "string option"
  parseExpression :: "string \<Rightarrow> CronOptions \<Rightarrow> CronInterval option"

section \<open>The manager (scheduleManager.ts)\<close>

datatype ExecResult = Resolved | Rejected string

text \<open>
  The fields of the class, followed by what the class does to the outside world:
  \<open>storage\<close> is \<open>globalState[STORAGE_KEY]\<close>, \<open>notifications\<close> counts the invocations of
  the tasks-changed callback, \<open>calls\<close> lists the tasks handed to the execute callback,
  \<open>console\<close> the lines written by \<open>console.error\<close>.  \<open>tasks\<close> is the \<open>Map\<close>, kept in
  insertion order and keyed by \<open>task_id\<close>.  Timers: \<open>pendingTimeouts\<close> counts the one-shot
  alignment timers that were set and have not fired, \<open>activeIntervals\<close> holds the handles of
  the running interval timers.
\<close>

record Manager =
  tasks :: "ScheduledTask list"
  schedulerInterval :: "nat option"
  onTasksChangedCallback :: bool
  onExecuteCallback :: "(ScheduledTask \<Rightarrow> ExecResult) option"
  storage :: "StoredTask list"
  notifications :: nat
  calls :: "ScheduledTask list"
  console :: "string list"
  pendingTimeouts :: nat
  activeIntervals :: "nat list"
  nextHandle :: nat

subsection \<open>The Map of tasks\<close>

fun map_set :: "ScheduledTask list \<Rightarrow> ScheduledTask \<Rightarrow> ScheduledTask list" where
  "map_set [] t = [t]"
| "map_set (u # us) t = (if task_id u = task_id t then t # us else u # map_set us t)"

fun map_get :: "ScheduledTask list \<Rightarrow> string \<Rightarrow> ScheduledTask option" where
  "map_get [] k = None"
| "map_get (u # us) k = (if task_id u = k then Some u else map_get us k)"

subsection \<open>Persistence\<close>

definition toJSON :: "instant \<Rightarrow> SerializedDate" where
  "toJSON d = IsoString d"

fun new_Date :: "SerializedDate \<Rightarrow> instant" where
  "new_Date (IsoString d) = d"

definition serializeTask :: "ScheduledTask \<Rightarrow> StoredTask" where
  "serializeTask t =
     \<lparr> s_id = task_id t, s_name = name t, s_cronExpression = cronExpression t,
       s_prompt = prompt t, s_enabled = enabled t, s_agent = agent t, s_model = model t,
       s_scope = Some (scope t), s_workspacePath = workspacePath t,
       s_promptSource = Some (promptSource t), s_promptPath = promptPath t,
       s_lastRun = map_option toJSON (lastRun t), s_nextRun = map_option toJSON (nextRun t),
       s_createdAt = toJSON (createdAt t), s_updatedAt = toJSON (updatedAt t) \<rparr>"

definition notifyTasksChanged :: "Manager \<Rightarrow> Manager" where
  "notifyTasksChanged m =
     (if onTasksChangedCallback m then m\<lparr>notifications := Suc (notifications m)\<rparr> else m)"

definition saveTasks :: "Manager \<Rightarrow> Manager" where
  "saveTasks m = notifyTasksChanged (m\<lparr>storage := map serializeTask (tasks m)\<rparr>)"

subsection \<open>Cron evaluation\<close>

definition getTimeZone :: "Host \<Rightarrow> string option" where
  "getTimeZone h = (if cfg_timezone h = [] then None else Some (cfg_timezone h))"

definition getNextRun :: "Host \<Rightarrow> string \<Rightarrow> instant option \<Rightarrow> instant option" where
  "getNextRun h expression baseTime =
     (case parseExpression h expression
             \<lparr> currentDate = (case baseTime of None \<Rightarrow> clock h | Some b \<Rightarrow> b),
               tz = getTimeZone h \<rparr> of
        None \<Rightarrow> None
      | Some interval \<Rightarrow> interval)"

text \<open>
  \<open>String.prototype.trim\<close> strips white space and line terminators from both ends; on
  byte strings these are the six ASCII characters below.
\<close>

definition isWhiteSpace :: "char \<Rightarrow> bool" where
  "isWhiteSpace c = (c \<in> set [CHR 0x09, CHR 0x0A, CHR 0x0B, CHR 0x0C, CHR 0x0D, CHR 0x20])"

definition trim :: "string \<Rightarrow> string" where
  "trim s = rev (dropWhile isWhiteSpace (rev (dropWhile isWhiteSpace s)))"

definition validateCronExpression :: "Host \<Rightarrow> string \<Rightarrow> Error + bool" where
  "validateCronExpression h expression =
     (if expression = [] \<or> trim expression = [] then Inl InvalidExpression
      else (case parseExpression h expression \<lparr> currentDate = clock h, tz = getTimeZone h \<rparr> of
              None \<Rightarrow> Inl InvalidExpression
            | Some interval \<Rightarrow> Inr True))"

subsection \<open>Identifiers\<close>

fun digits :: "nat \<Rightarrow> string" where
  "digits n =
     (if n < 10 then [''0123456789'' ! n]
      else digits (n div 10) @ [''0123456789'' ! (n mod 10)])"

declare digits.simps [simp del]

definition showInt :: "int \<Rightarrow> string" where
  "showInt i = (if i < 0 then CHR ''-'' # digits (nat (- i)) else digits (nat i))"

definition generateId :: "Host \<Rightarrow> string" where
  "generateId h = ''task_'' @ showInt (clock h) @ ''_'' @ randomSuffix h"

subsection \<open>CRUD operations\<close>

text \<open>
  An operation that throws returns \<open>Inl\<close> and no new state: the caller keeps the state it
  had.  An object of the \<open>Map\<close> that is mutated in place is written back under its key.
\<close>

definition createTask ::
  "Host \<Rightarrow> CreateTaskInput \<Rightarrow> Manager \<Rightarrow> Error + (ScheduledTask \<times> Manager)" where
  "createTask h input m =
     (case validateCronExpression h (cronExpression_in input) of
        Inl e \<Rightarrow> Inl e
      | Inr ok \<Rightarrow>
          (let now = clock h;
               newId = generateId h;
               next = (if runFirstInOneMinute_in input = Some True then Some (now + 60 * 1000)
                       else getNextRun h (cronExpression_in input) (Some now));
               defaultScope = cfg_defaultScope h;
               task = \<lparr> task_id = newId,
                        name = name_in input,
                        cronExpression = cronExpression_in input,
                        prompt = prompt_in input,
                        enabled = (enabled_in input \<noteq> Some False),
                        agent = agent_in input,
                        model = model_in input,
                        scope = (case scope_in input of None \<Rightarrow> defaultScope | Some s \<Rightarrow> s),
                        workspacePath =
                          (if scope_in input = Some ScopeWorkspace then workspaceFolder h else None),
                        promptSource =
                          (case promptSource_in input of None \<Rightarrow> Inline | Some p \<Rightarrow> p),
                        promptPath = promptPath_in input,
                        lastRun = None,
                        nextRun = next,
                        createdAt = now,
                        updatedAt = now \<rparr>
           in Inr (task, saveTasks (m\<lparr>tasks := map_set (tasks m) task\<rparr>))))"

definition applyUpdates :: "Host \<Rightarrow> instant \<Rightarrow> TaskUpdates \<Rightarrow> ScheduledTask \<Rightarrow> ScheduledTask" where
  "applyUpdates h now updates task =
     (let t1 = (case name_upd updates of None \<Rightarrow> task | Some v \<Rightarrow> task\<lparr>name := v\<rparr>);
          t2 = (case cronExpression_upd updates of None \<Rightarrow> t1
                | Some v \<Rightarrow> t1\<lparr>cronExpression := v, nextRun := getNextRun h v (Some now)\<rparr>);
          t3 = (case prompt_upd updates of None \<Rightarrow> t2 | Some v \<Rightarrow> t2\<lparr>prompt := v\<rparr>);
          t4 = (case enabled_upd updates of None \<Rightarrow> t3 | Some v \<Rightarrow> t3\<lparr>enabled := v\<rparr>);
          t5 = (case agent_upd updates of None \<Rightarrow> t4 | Some v \<Rightarrow> t4\<lparr>agent := Some v\<rparr>);
          t6 = (case model_upd updates of None \<Rightarrow> t5 | Some v \<Rightarrow> t5\<lparr>model := Some v\<rparr>);
          t7 = (case scope_upd updates of None \<Rightarrow> t6
                | Some v \<Rightarrow>
                    (if v = ScopeWorkspace
                     then t6\<lparr>scope := v, workspacePath := workspaceFolder h\<rparr>
                     else t6\<lparr>scope := v, workspacePath := None\<rparr>));
          t8 = (case promptSource_upd updates of None \<Rightarrow> t7 | Some v \<Rightarrow> t7\<lparr>promptSource := v\<rparr>);
          t9 = (case promptPath_upd updates of None \<Rightarrow> t8 | Some v \<Rightarrow> t8\<lparr>promptPath := Some v\<rparr>)
      in t9\<lparr>updatedAt := now\<rparr>)"

definition updateTask ::
  "Host \<Rightarrow> string \<Rightarrow> TaskUpdates \<Rightarrow> Manager \<Rightarrow> Error + (ScheduledTask option \<times> Manager)" where
  "updateTask h k updates m =
     (case map_get (tasks m) k of
        None \<Rightarrow> Inr (None, m)
      | Some task \<Rightarrow>
          (case (case cronExpression_upd updates of
                   None \<Rightarrow> Inr True
                 | Some v \<Rightarrow> if v = [] then Inr True else validateCronExpression h v) of
             Inl e \<Rightarrow> Inl e
           | Inr ok \<Rightarrow>
               (let task' = applyUpdates h (clock h) updates task
                in Inr (Some task', saveTasks (m\<lparr>tasks := map_set (tasks m) task'\<rparr>)))))"

definition toggleTask :: "Host \<Rightarrow> string \<Rightarrow> Manager \<Rightarrow> ScheduledTask option \<times> Manager" where
  "toggleTask h k m =
     (case map_get (tasks m) k of
        None \<Rightarrow> (None, m)
      | Some task \<Rightarrow>
          (let t1 = task\<lparr>enabled := \<not> enabled task, updatedAt := clock h\<rparr>;
               t2 = (if enabled t1 then t1\<lparr>nextRun := getNextRun h (cronExpression t1) None\<rparr>
                     else t1)
           in (Some t2, saveTasks (m\<lparr>tasks := map_set (tasks m) t2\<rparr>))))"

definition duplicateTask ::
  "Host \<Rightarrow> string \<Rightarrow> Manager \<Rightarrow> Error + (ScheduledTask option \<times> Manager)" where
  "duplicateTask h k m =
     (case map_get (tasks m) k of
        None \<Rightarrow> Inr (None, m)
      | Some original \<Rightarrow>
          (let input = \<lparr> name_in = name original @ '' (Copy)'',
                         cronExpression_in = cronExpression original,
                         prompt_in = prompt original,
                         enabled_in = Some False,
                         agent_in = agent original,
                         model_in = model original,
                         scope_in = Some (scope original),
                         runFirstInOneMinute_in = None,
                         promptSource_in = Some (promptSource original),
                         promptPath_in = promptPath original \<rparr>
           in (case createTask h input m of
                 Inl e \<Rightarrow> Inl e
               | Inr (task, m') \<Rightarrow> Inr (Some task, m'))))"

subsection \<open>Loading\<close>

definition restoreTask :: "Host \<Rightarrow> StoredTask \<Rightarrow> ScheduledTask" where
  "restoreTask h r =
     \<lparr> task_id = s_id r,
       name = s_name r,
       cronExpression = s_cronExpression r,
       prompt = s_prompt r,
       enabled = s_enabled r,
       agent = s_agent r,
       model = s_model r,
       scope = (case s_scope r of None \<Rightarrow> ScopeGlobal | Some s \<Rightarrow> s),
       workspacePath = s_workspacePath r,
       promptSource = (case s_promptSource r of None \<Rightarrow> Inline | Some p \<Rightarrow> p),
       promptPath = s_promptPath r,
       lastRun = map_option new_Date (s_lastRun r),
       nextRun = getNextRun h (s_cronExpression r) None,
       createdAt = new_Date (s_createdAt r),
       updatedAt = new_Date (s_updatedAt r) \<rparr>"

fun loadLoop :: "Host \<Rightarrow> StoredTask list \<Rightarrow> Manager \<Rightarrow> Manager" where
  "loadLoop h [] m = m"
| "loadLoop h (r # rs) m = loadLoop h rs (m\<lparr>tasks := map_set (tasks m) (restoreTask h r)\<rparr>)"

definition loadTasks :: "Host \<Rightarrow> Manager \<Rightarrow> Manager" where
  "loadTasks h m = loadLoop h (storage m) m"

text \<open>The constructor: an empty \<open>Map\<close>, no callbacks, no timer, then \<open>loadTasks\<close>.\<close>

definition newManager :: "Host \<Rightarrow> StoredTask list \<Rightarrow> Manager" where
  "newManager h saved =
     loadTasks h \<lparr> tasks = [], schedulerInterval = None, onTasksChangedCallback = False,
                   onExecuteCallback = None, storage = saved, notifications = 0, calls = [],
                   console = [], pendingTimeouts = 0, activeIntervals = [], nextHandle = 0 \<rparr>"

subsection \<open>Scope gating\<close>

definition shouldTaskRunInCurrentWorkspace :: "Host \<Rightarrow> ScheduledTask \<Rightarrow> bool" where
  "shouldTaskRunInCurrentWorkspace h task =
     (if scope task = ScopeGlobal then True
      else (case workspaceFolder h of
              None \<Rightarrow> False
            | Some currentWorkspace \<Rightarrow>
                if currentWorkspace = [] then False
                else workspacePath task = Some currentWorkspace))"

subsection \<open>The poll tick\<close>

text \<open>
  \<open>new Date(y, m, d, h, min)\<close> built from the local fields of a date is the start of its
  minute.  Local time is taken to differ from the epoch clock by whole minutes, the same
  number for both dates compared, so truncation acts on the epoch value.
\<close>

text \<open>
  A tick is one step of the model: nothing else touches the manager while the loop awaits
  the callback or the save, the callback does not call back into the manager, and
  \<open>globalState.update\<close> succeeds.  The callback is a function from the task to its
  outcome; \<open>execute\<close> is the guarded \<open>try\<close>/\<open>catch\<close> around its invocation.
\<close>

definition truncMinute :: "instant \<Rightarrow> instant" where
  "truncMinute d = d - d mod 60000"

definition execute :: "ScheduledTask \<Rightarrow> Manager \<Rightarrow> Manager" where
  "execute task m =
     (case onExecuteCallback m of
        None \<Rightarrow> m
      | Some onExecute \<Rightarrow>
          (case onExecute task of
             Resolved \<Rightarrow> m\<lparr>calls := calls m @ [task]\<rparr>
           | Rejected err \<Rightarrow>
               m\<lparr>calls := calls m @ [task],
                 console := console m @ [''Task execution error: '' @ err]\<rparr>))"

fun tickLoop :: "Host \<Rightarrow> instant \<Rightarrow> ScheduledTask list \<Rightarrow> Manager \<Rightarrow> Manager" where
  "tickLoop h now [] m = m"
| "tickLoop h now (task # rest) m =
     (if \<not> enabled task \<or> nextRun task = None then tickLoop h now rest m
      else if \<not> shouldTaskRunInCurrentWorkspace h task then tickLoop h now rest m
      else if truncMinute (the (nextRun task)) \<le> truncMinute now then
        (let m1 = execute task m;
             task' = task\<lparr>lastRun := Some now,
                          nextRun := getNextRun h (cronExpression task) (Some now)\<rparr>
         in tickLoop h now rest (saveTasks (m1\<lparr>tasks := map_set (tasks m1) task'\<rparr>)))
      else tickLoop h now rest m)"

definition checkAndExecuteTasks :: "Host \<Rightarrow> Manager \<Rightarrow> Manager" where
  "checkAndExecuteTasks h m =
     (if \<not> cfg_enabled h then m else tickLoop h (clock h) (tasks m) m)"

definition runTaskNow :: "Host \<Rightarrow> string \<Rightarrow> Manager \<Rightarrow> bool \<times> Manager" where
  "runTaskNow h k m =
     (case map_get (tasks m) k of
        None \<Rightarrow> (False, m)
      | Some task \<Rightarrow>
          (case onExecuteCallback m of
             None \<Rightarrow> (False, m)
           | Some onExecute \<Rightarrow>
               (case onExecute task of
                  Resolved \<Rightarrow>
                    (let m1 = m\<lparr>calls := calls m @ [task]\<rparr>;
                         task' = task\<lparr>lastRun := Some (clock h)\<rparr>
                     in (True, saveTasks (m1\<lparr>tasks := map_set (tasks m1) task'\<rparr>)))
                | Rejected err \<Rightarrow> (False, m\<lparr>calls := calls m @ [task]\<rparr>))))"

subsection \<open>Starting and stopping\<close>

definition stopScheduler :: "Manager \<Rightarrow> Manager" where
  "stopScheduler m =
     (case schedulerInterval m of
        None \<Rightarrow> m
      | Some handle \<Rightarrow>
          m\<lparr>activeIntervals := removeAll handle (activeIntervals m), schedulerInterval := None\<rparr>)"

definition startScheduler :: "(ScheduledTask \<Rightarrow> ExecResult) \<Rightarrow> Manager \<Rightarrow> Manager" where
  "startScheduler onExecute m =
     (let m1 = stopScheduler (m\<lparr>onExecuteCallback := Some onExecute\<rparr>)
      in m1\<lparr>pendingTimeouts := Suc (pendingTimeouts m1)\<rparr>)"

text \<open>
  The two closures handed to the timers.  \<open>None\<close>: no such timer is armed, so the host
  does not run the closure.
\<close>

definition alignmentTimeoutFires :: "Host \<Rightarrow> Manager \<Rightarrow> Manager option" where
  "alignmentTimeoutFires h m =
     (if pendingTimeouts m = 0 then None
      else (let m1 = checkAndExecuteTasks h (m\<lparr>pendingTimeouts := pendingTimeouts m - 1\<rparr>);
                handle = nextHandle m1
            in Some (m1\<lparr>schedulerInterval := Some handle,
                         activeIntervals := activeIntervals m1 @ [handle],
                         nextHandle := Suc handle\<rparr>)))"

definition intervalFires :: "Host \<Rightarrow> nat \<Rightarrow> Manager \<Rightarrow> Manager option" where
  "intervalFires h handle m =
     (if handle \<in> set (activeIntervals m) then Some (checkAndExecuteTasks h m) else None)"

section \<open>A sample cron library\<close>

text \<open>
  An instance of the library interface for concrete evaluations: it accepts the
  expression \<open>* * * * *\<close> alone and answers with the start of the minute that follows
  \<open>currentDate\<close>.
\<close>

definition everyMinute :: "string \<Rightarrow> CronOptions \<Rightarrow> CronInterval option" where
  "everyMinute expression options =
     (if expression = ''* * * * *'' then Some (Some ((currentDate options div 60000 + 1) * 60000))
      else None)"

section \<open>Notions used in the statements\<close>

text \<open>
  The three tests of the poll loop on one task, taken together, and the bookkeeping the
  loop applies to a task that passed them.  Lemma \<open>tickLoop_step\<close> below shows that the
  loop is exactly: if \<open>isDue\<close> then execute, \<open>advance\<close> and save.
\<close>

definition isDue :: "Host \<Rightarrow> instant \<Rightarrow> ScheduledTask \<Rightarrow> bool" where
  "isDue h now task =
     (enabled task \<and> nextRun task \<noteq> None \<and> shouldTaskRunInCurrentWorkspace h task \<and>
      truncMinute (the (nextRun task)) \<le> truncMinute now)"

definition advance :: "Host \<Rightarrow> instant \<Rightarrow> ScheduledTask \<Rightarrow> ScheduledTask" where
  "advance h now task =
     task\<lparr>lastRun := Some now, nextRun := getNextRun h (cronExpression task) (Some now)\<rparr>"

text \<open>The tasks handed to the execute callback by one poll tick, in order.\<close>

definition dispatchedBy :: "Host \<Rightarrow> Manager \<Rightarrow> ScheduledTask list" where
  "dispatchedBy h m = drop (length (calls m)) (calls (checkAndExecuteTasks h m))"


text \<open>
  A cron string that validation is meant to refuse: empty, white space only, or refused
  by the library's grammar.
\<close>

definition malformed :: "Host \<Rightarrow> string \<Rightarrow> bool" where
  "malformed h s =
     (s = [] \<or> trim s = [] \<or>
      parseExpression h s \<lparr> currentDate = clock h, tz = getTimeZone h \<rparr> = None)"

text \<open>A stored record as an older version wrote it: without \<open>scope\<close>, \<open>promptSource\<close> or both.\<close>

definition omitFields :: "bool \<Rightarrow> bool \<Rightarrow> StoredTask \<Rightarrow> StoredTask" where
  "omitFields noScope noSource r =
     r\<lparr>s_scope := (if noScope then None else s_scope r),
       s_promptSource := (if noSource then None else s_promptSource r)\<rparr>"

text \<open>
  Sequences of calls.  Each call comes with the host it runs in; a call that throws leaves
  the manager as it was.
\<close>

datatype Operation =
    CreateTask CreateTaskInput
  | UpdateTask string TaskUpdates
  | ToggleTask string
  | DuplicateTask string

fun perform :: "Host \<times> Operation \<Rightarrow> Manager \<Rightarrow> Manager" where
  "perform (h, CreateTask input) m =
     (case createTask h input m of Inl e \<Rightarrow> m | Inr (t, m') \<Rightarrow> m')"
| "perform (h, UpdateTask k updates) m =
     (case updateTask h k updates m of Inl e \<Rightarrow> m | Inr (t, m') \<Rightarrow> m')"
| "perform (h, ToggleTask k) m = snd (toggleTask h k m)"
| "perform (h, DuplicateTask k) m =
     (case duplicateTask h k m of Inl e \<Rightarrow> m | Inr (t, m') \<Rightarrow> m')"

fun performAll :: "(Host \<times> Operation) list \<Rightarrow> Manager \<Rightarrow> Manager" where
  "performAll [] m = m"
| "performAll (c # cs) m = performAll cs (perform c m)"




section \<open>Sample values\<close>

definition sampleHost :: Host where
  "sampleHost =
     \<lparr> clock = 120000, randomSuffix = ''abc123'', cfg_enabled = True, cfg_timezone = [],
       cfg_defaultScope = ScopeWorkspace, workspaceFolder = Some ''/repoA'',
       parseExpression = everyMinute \<rparr>"

definition sampleTask :: ScheduledTask where
  "sampleTask =
     \<lparr> task_id = ''t1'', name = ''minutely'', cronExpression = ''* * * * *'',
       prompt = ''hello'', enabled = True, agent = None, model = None, scope = ScopeGlobal,
       workspacePath = None, promptSource = Inline, promptPath = None, lastRun = None,
       nextRun = Some 120000, createdAt = 0, updatedAt = 0 \<rparr>"

definition otherTask :: ScheduledTask where
  "otherTask = sampleTask\<lparr>task_id := ''t2'', name := ''other''\<rparr>"

definition repoATask :: ScheduledTask where
  "repoATask =
     sampleTask\<lparr>task_id := ''t3'', scope := ScopeWorkspace, workspacePath := Some ''/repoA''\<rparr>"

definition alwaysResolves :: "ScheduledTask \<Rightarrow> ExecResult" where
  "alwaysResolves task = Resolved"

definition alwaysRejects :: "ScheduledTask \<Rightarrow> ExecResult" where
  "alwaysRejects task = Rejected ''boom''"

definition sampleManager :: Manager where
  "sampleManager =
     \<lparr> tasks = [sampleTask], schedulerInterval = None, onTasksChangedCallback = True,
       onExecuteCallback = Some alwaysResolves, storage = [serializeTask sampleTask],
       notifications = 0, calls = [], console = [], pendingTimeouts = 0,
       activeIntervals = [], nextHandle = 0 \<rparr>"

definition noUpdates :: TaskUpdates where
  "noUpdates =
     \<lparr> name_upd = None, cronExpression_upd = None, prompt_upd = None, enabled_upd = None,
       agent_upd = None, model_upd = None, scope_upd = None, runFirstInOneMinute_upd = None,
       promptSource_upd = None, promptPath_upd = None \<rparr>"

definition sampleInput :: CreateTaskInput where
  "sampleInput =
     \<lparr> name_in = ''minutely'', cronExpression_in = ''* * * * *'', prompt_in = ''hello'',
       enabled_in = None, agent_in = None, model_in = None, scope_in = None,
       runFirstInOneMinute_in = None, promptSource_in = None, promptPath_in = None \<rparr>"

section \<open>Basic facts\<close>

lemma saveTasks_fields [simp]:
  "tasks (saveTasks m) = tasks m"
  "calls (saveTasks m) = calls m"
  "console (saveTasks m) = console m"
  "onExecuteCallback (saveTasks m) = onExecuteCallback m"
  "onTasksChangedCallback (saveTasks m) = onTasksChangedCallback m"
  "schedulerInterval (saveTasks m) = schedulerInterval m"
  "pendingTimeouts (saveTasks m) = pendingTimeouts m"
  "activeIntervals (saveTasks m) = activeIntervals m"
  "nextHandle (saveTasks m) = nextHandle m"
  "storage (saveTasks m) = map serializeTask (tasks m)"
  "notifications (saveTasks m) =
     (if onTasksChangedCallback m then Suc (notifications m) else notifications m)"
  by (simp_all add: saveTasks_def notifyTasksChanged_def)

lemma execute_fields [simp]:
  "tasks (execute t m) = tasks m"
  "storage (execute t m) = storage m"
  "notifications (execute t m) = notifications m"
  "onExecuteCallback (execute t m) = onExecuteCallback m"
  "onTasksChangedCallback (execute t m) = onTasksChangedCallback m"
  "schedulerInterval (execute t m) = schedulerInterval m"
  "pendingTimeouts (execute t m) = pendingTimeouts m"
  "activeIntervals (execute t m) = activeIntervals m"
  "nextHandle (execute t m) = nextHandle m"
  by (simp_all add: execute_def split: option.splits ExecResult.splits)

lemma execute_calls:
  "calls (execute t m) =
     (case onExecuteCallback m of None \<Rightarrow> calls m | Some f \<Rightarrow> calls m @ [t])"
  by (simp add: execute_def split: option.splits ExecResult.splits)

lemma map_get_map_set:
  "map_get (map_set ts t) k = (if k = task_id t then Some t else map_get ts k)"
  by (induction ts) auto

lemma map_get_key: "map_get ts k = Some t \<Longrightarrow> task_id t = k"
  by (induction ts) (auto split: if_splits)


lemma map_get_distinct:
  "distinct (map task_id ts) \<Longrightarrow> t \<in> set ts \<Longrightarrow> map_get ts (task_id t) = Some t"
  by (induction ts) (auto simp: image_iff)

lemma map_set_in_place:
  "task_id t' = task_id t \<Longrightarrow> task_id t \<notin> task_id ` set pre \<Longrightarrow>
   map_set (pre @ t # post) t' = pre @ t' # post"
  by (induction pre) auto

lemma map_set_append: "task_id t \<notin> task_id ` set ts \<Longrightarrow> map_set ts t = ts @ [t]"
  by (induction ts) auto

lemma set_map_set: "set (map_set ts t) \<subseteq> insert t (set ts)"
  by (induction ts) auto

text \<open>Two evaluations of the string functions.\<close>

lemma generateId_example: "generateId sampleHost = ''task_120000_abc123''"
  by (simp add: generateId_def showInt_def sampleHost_def digits.simps)

lemma trim_example: "trim '' * * * * *  '' = ''* * * * *'' \<and> trim ''   '' = []"
  by (simp add: trim_def isWhiteSpace_def)

section \<open>The poll loop\<close>

lemma tickLoop_step:
  "tickLoop h now (task # rest) m =
     (if isDue h now task
      then tickLoop h now rest
             (saveTasks ((execute task m)\<lparr>tasks := map_set (tasks m) (advance h now task)\<rparr>))
      else tickLoop h now rest m)"
  by (cases "nextRun task") (auto simp: isDue_def advance_def Let_def)

lemma tickLoop_callback [simp]:
  "onExecuteCallback (tickLoop h now todo m) = onExecuteCallback m"
  by (induction todo arbitrary: m) (simp_all add: tickLoop_step del: tickLoop.simps(2))

lemma tickLoop_calls:
  "calls (tickLoop h now todo m) =
     calls m @ (case onExecuteCallback m of None \<Rightarrow> [] | Some f \<Rightarrow> filter (isDue h now) todo)"
  by (induction todo arbitrary: m)
     (simp_all add: tickLoop_step execute_calls del: tickLoop.simps(2) split: option.splits)

lemma tickLoop_notifications:
  "notifications (tickLoop h now todo m) =
     notifications m +
       (if onTasksChangedCallback (tickLoop h now todo m) then length (filter (isDue h now) todo) else 0)"
  "onTasksChangedCallback (tickLoop h now todo m) = onTasksChangedCallback m"
  by (induction todo arbitrary: m)
     (simp_all add: tickLoop_step del: tickLoop.simps(2))

lemma advance_id [simp]: "task_id (advance h now t) = task_id t"
  by (simp add: advance_def)

lemma tickLoop_tasks_gen:
  "tasks m = pre @ todo \<Longrightarrow> distinct (map task_id (pre @ todo)) \<Longrightarrow>
   tasks (tickLoop h now todo m) =
     pre @ map (\<lambda>t. if isDue h now t then advance h now t else t) todo"
proof (induction todo arbitrary: m pre)
  case Nil
  then show ?case by simp
next
  case (Cons t rest)
  show ?case
  proof (cases "isDue h now t")
    case True
    let ?m' = "saveTasks ((execute t m)\<lparr>tasks := map_set (tasks m) (advance h now t)\<rparr>)"
    have "tasks ?m' = (pre @ [advance h now t]) @ rest"
      using Cons.prems by (simp add: map_set_in_place)
    moreover have "distinct (map task_id ((pre @ [advance h now t]) @ rest))"
      using Cons.prems by auto
    ultimately have "tasks (tickLoop h now rest ?m') =
        (pre @ [advance h now t]) @ map (\<lambda>t. if isDue h now t then advance h now t else t) rest"
      by (rule Cons.IH)
    then show ?thesis using True by (simp add: tickLoop_step del: tickLoop.simps(2))
  next
    case False
    have "tasks m = (pre @ [t]) @ rest" using Cons.prems by simp
    moreover have "distinct (map task_id ((pre @ [t]) @ rest))" using Cons.prems by simp
    ultimately have "tasks (tickLoop h now rest m) =
        (pre @ [t]) @ map (\<lambda>t. if isDue h now t then advance h now t else t) rest"
      by (rule Cons.IH)
    then show ?thesis using False by (simp add: tickLoop_step del: tickLoop.simps(2))
  qed
qed

lemma tickLoop_storage_gen:
  "storage (tickLoop h now todo m) =
     (if \<exists>t \<in> set todo. isDue h now t then map serializeTask (tasks (tickLoop h now todo m))
      else storage m)"
proof (induction todo arbitrary: m)
  case Nil
  then show ?case by simp
next
  case (Cons t rest)
  show ?case
  proof (cases "isDue h now t")
    case True
    let ?m' = "saveTasks ((execute t m)\<lparr>tasks := map_set (tasks m) (advance h now t)\<rparr>)"
    have "storage (tickLoop h now rest ?m') =
       (if \<exists>t \<in> set rest. isDue h now t then map serializeTask (tasks (tickLoop h now rest ?m'))
        else storage ?m')" by (rule Cons.IH)
    moreover have "\<not> (\<exists>t \<in> set rest. isDue h now t) \<Longrightarrow> tasks (tickLoop h now rest ?m') = tasks ?m'"
      by (induction rest) (simp_all add: tickLoop_step del: tickLoop.simps(2))
    ultimately show ?thesis using True
      by (auto simp add: tickLoop_step simp del: tickLoop.simps(2))
  next
    case False
    then show ?thesis using Cons.IH [of m] by (simp add: tickLoop_step del: tickLoop.simps(2))
  qed
qed

lemma tick_tasks:
  "distinct (map task_id (tasks m)) \<Longrightarrow>
   tasks (checkAndExecuteTasks h m) =
     (if cfg_enabled h
      then map (\<lambda>t. if isDue h (clock h) t then advance h (clock h) t else t) (tasks m)
      else tasks m)"
  using tickLoop_tasks_gen [of m "[]" "tasks m" h "clock h"]
  by (simp add: checkAndExecuteTasks_def)

lemma tick_dispatched:
  "dispatchedBy h m =
     (if cfg_enabled h \<and> onExecuteCallback m \<noteq> None
      then filter (isDue h (clock h)) (tasks m) else [])"
  by (auto simp: dispatchedBy_def checkAndExecuteTasks_def tickLoop_calls split: option.splits)

lemma tick_callback [simp]:
  "onExecuteCallback (checkAndExecuteTasks h m) = onExecuteCallback m"
  by (simp add: checkAndExecuteTasks_def)

lemma tick_storage:
  "storage (checkAndExecuteTasks h m) =
     (if cfg_enabled h \<and> (\<exists>t \<in> set (tasks m). isDue h (clock h) t)
      then map serializeTask (tasks (checkAndExecuteTasks h m)) else storage m)"
  by (simp add: checkAndExecuteTasks_def tickLoop_storage_gen)

lemma tick_notifications:
  "notifications (checkAndExecuteTasks h m) =
     notifications m +
       (if cfg_enabled h \<and> onTasksChangedCallback m
        then length (filter (isDue h (clock h)) (tasks m)) else 0)"
  by (simp add: checkAndExecuteTasks_def tickLoop_notifications)


section \<open>Scope gating (C8)\<close>

text \<open>
  C8, as amended.  A task of scope \<open>global\<close> is eligible in every workspace.  A task of
  scope \<open>workspace\<close> is eligible iff a workspace folder is open, its path is not the empty
  string, and it equals the task's \<open>workspacePath\<close>: the test \<open>!currentWorkspace\<close> treats an
  empty path like no workspace.  A task bound to \<open>/repoA\<close> is not due when the current
  workspace is \<open>/repoB\<close> or there is none; a poll tick neither dispatches it nor changes it.
\<close>

theorem scope_gating:
  "(scope task = ScopeGlobal \<longrightarrow> shouldTaskRunInCurrentWorkspace h task) \<and>
   (scope task = ScopeWorkspace \<longrightarrow>
      shouldTaskRunInCurrentWorkspace h task =
        (workspaceFolder h \<noteq> None \<and> workspaceFolder h \<noteq> Some [] \<and>
         workspacePath task = workspaceFolder h)) \<and>
   (scope task = ScopeWorkspace \<and> workspacePath task = Some ''/repoA'' \<and>
    (workspaceFolder h = Some ''/repoB'' \<or> workspaceFolder h = None) \<longrightarrow>
      \<not> isDue h (clock h) task \<and> task \<notin> set (dispatchedBy h m) \<and>
      (distinct (map task_id (tasks m)) \<and> task \<in> set (tasks m) \<longrightarrow>
         task \<in> set (tasks (checkAndExecuteTasks h m))))"
proof (intro conjI impI)
  assume "scope task = ScopeGlobal"
  then show "shouldTaskRunInCurrentWorkspace h task"
    by (simp add: shouldTaskRunInCurrentWorkspace_def)
next
  assume "scope task = ScopeWorkspace"
  then show "shouldTaskRunInCurrentWorkspace h task =
        (workspaceFolder h \<noteq> None \<and> workspaceFolder h \<noteq> Some [] \<and>
         workspacePath task = workspaceFolder h)"
    by (auto simp: shouldTaskRunInCurrentWorkspace_def split: option.splits)
next
  assume a: "scope task = ScopeWorkspace \<and> workspacePath task = Some ''/repoA'' \<and>
    (workspaceFolder h = Some ''/repoB'' \<or> workspaceFolder h = None)"
  then have ne: "\<not> shouldTaskRunInCurrentWorkspace h task"
    by (auto simp: shouldTaskRunInCurrentWorkspace_def)
  then show nd: "\<not> isDue h (clock h) task" by (simp add: isDue_def)
  then show "task \<notin> set (dispatchedBy h m)" by (simp add: tick_dispatched)
  assume "distinct (map task_id (tasks m)) \<and> task \<in> set (tasks m)"
  then show "task \<in> set (tasks (checkAndExecuteTasks h m))"
    using nd by (auto simp: tick_tasks image_iff intro!: bexI [of _ task])
qed

text \<open>
  C8 as stated fails for the empty path: the current workspace is defined and equal to the
  task's \<open>workspacePath\<close>, and the task is not eligible.
\<close>

theorem scope_gating_empty_path_counterexample:
  "scope (repoATask\<lparr>workspacePath := Some []\<rparr>) = ScopeWorkspace \<and>
   workspaceFolder (sampleHost\<lparr>workspaceFolder := Some []\<rparr>) \<noteq> None \<and>
   workspacePath (repoATask\<lparr>workspacePath := Some []\<rparr>) =
     workspaceFolder (sampleHost\<lparr>workspaceFolder := Some []\<rparr>) \<and>
   \<not> shouldTaskRunInCurrentWorkspace (sampleHost\<lparr>workspaceFolder := Some []\<rparr>)
        (repoATask\<lparr>workspacePath := Some []\<rparr>)"
  by (simp add: shouldTaskRunInCurrentWorkspace_def repoATask_def sampleTask_def sampleHost_def)

theorem scope_gating_witness:
  "shouldTaskRunInCurrentWorkspace sampleHost sampleTask \<and>
   shouldTaskRunInCurrentWorkspace sampleHost repoATask \<and>
   \<not> shouldTaskRunInCurrentWorkspace (sampleHost\<lparr>workspaceFolder := Some ''/repoB''\<rparr>) repoATask \<and>
   repoATask \<notin> set (dispatchedBy (sampleHost\<lparr>workspaceFolder := Some ''/repoB''\<rparr>)
                      (sampleManager\<lparr>tasks := [repoATask]\<rparr>)) \<and>
   repoATask \<in> set (tasks (checkAndExecuteTasks (sampleHost\<lparr>workspaceFolder := Some ''/repoB''\<rparr>)
                      (sampleManager\<lparr>tasks := [repoATask]\<rparr>)))"
proof -
  have g: "scope sampleTask = ScopeGlobal" by (simp add: sampleTask_def)
  have w: "scope repoATask = ScopeWorkspace" by (simp add: repoATask_def sampleTask_def)
  have p: "workspacePath repoATask = Some ''/repoA''" by (simp add: repoATask_def)
  have f: "workspaceFolder sampleHost = Some ''/repoA''" by (simp add: sampleHost_def)
  have d: "distinct (map task_id (tasks (sampleManager\<lparr>tasks := [repoATask]\<rparr>))) \<and>
           repoATask \<in> set (tasks (sampleManager\<lparr>tasks := [repoATask]\<rparr>))" by simp
  show ?thesis
    using scope_gating [of sampleTask sampleHost sampleManager]
          scope_gating [of repoATask sampleHost sampleManager]
          scope_gating [of repoATask "sampleHost\<lparr>workspaceFolder := Some ''/repoB''\<rparr>"
                           "sampleManager\<lparr>tasks := [repoATask]\<rparr>"]
          g w p f d
    by simp
qed

section \<open>Running a task at once (C9)\<close>

text \<open>
  C9, as amended.  \<open>runTaskNow\<close> returns \<open>false\<close> and changes nothing when the task is
  missing or no execute callback is bound.  Otherwise it invokes the callback on the stored
  task, whatever its \<open>enabled\<close>, \<open>nextRun\<close> and scope.  When the callback resolves, the
  result is \<open>true\<close>, the stored task differs from before in \<open>lastRun\<close> alone, the other
  tasks are untouched and the collection is saved.  When the callback rejects, the result
  is \<open>false\<close> although the callback was invoked, and nothing is changed or saved.
\<close>

theorem runTaskNow_outcome:
  "(map_get (tasks m) k = None \<or> onExecuteCallback m = None \<longrightarrow>
      runTaskNow h k m = (False, m)) \<and>
   (map_get (tasks m) k = Some task \<and> onExecuteCallback m = Some onExecute \<longrightarrow>
      calls (snd (runTaskNow h k m)) = calls m @ [task] \<and>
      (onExecute task = Resolved \<longrightarrow>
         fst (runTaskNow h k m) = True \<and>
         map_get (tasks (snd (runTaskNow h k m))) k = Some (task\<lparr>lastRun := Some (clock h)\<rparr>) \<and>
         (\<forall>k'. k' \<noteq> k \<longrightarrow>
            map_get (tasks (snd (runTaskNow h k m))) k' = map_get (tasks m) k') \<and>
         storage (snd (runTaskNow h k m)) = map serializeTask (tasks (snd (runTaskNow h k m)))) \<and>
      (onExecute task \<noteq> Resolved \<longrightarrow>
         fst (runTaskNow h k m) = False \<and>
         tasks (snd (runTaskNow h k m)) = tasks m \<and>
         storage (snd (runTaskNow h k m)) = storage m \<and>
         notifications (snd (runTaskNow h k m)) = notifications m))"
proof -
  have A: "map_get (tasks m) k = None \<or> onExecuteCallback m = None \<Longrightarrow>
      runTaskNow h k m = (False, m)"
    by (auto simp: runTaskNow_def split: option.splits)
  have B: "calls (snd (runTaskNow h k m)) = calls m @ [task]"
    if "map_get (tasks m) k = Some task" "onExecuteCallback m = Some onExecute"
    using that by (simp add: runTaskNow_def Let_def split: ExecResult.splits)
  have C: "fst (runTaskNow h k m) = True \<and>
         map_get (tasks (snd (runTaskNow h k m))) k = Some (task\<lparr>lastRun := Some (clock h)\<rparr>) \<and>
         (\<forall>k'. k' \<noteq> k \<longrightarrow>
            map_get (tasks (snd (runTaskNow h k m))) k' = map_get (tasks m) k') \<and>
         storage (snd (runTaskNow h k m)) = map serializeTask (tasks (snd (runTaskNow h k m)))"
    if "map_get (tasks m) k = Some task" "onExecuteCallback m = Some onExecute"
       "onExecute task = Resolved"
    using that map_get_key [OF that(1)]
    by (simp add: runTaskNow_def Let_def map_get_map_set)
  have D: "fst (runTaskNow h k m) = False \<and>
         tasks (snd (runTaskNow h k m)) = tasks m \<and>
         storage (snd (runTaskNow h k m)) = storage m \<and>
         notifications (snd (runTaskNow h k m)) = notifications m"
    if "map_get (tasks m) k = Some task" "onExecuteCallback m = Some onExecute"
       "onExecute task \<noteq> Resolved"
    using that by (simp add: runTaskNow_def Let_def split: ExecResult.splits)
  show ?thesis using A B C D by blast
qed

text \<open>
  C9 as stated fails when the callback throws: it was invoked, and the result is \<open>false\<close>.
\<close>

theorem runTaskNow_rejected_counterexample:
  "calls (snd (runTaskNow sampleHost ''t1'' (sampleManager\<lparr>onExecuteCallback := Some alwaysRejects\<rparr>)))
     = [sampleTask] \<and>
   fst (runTaskNow sampleHost ''t1'' (sampleManager\<lparr>onExecuteCallback := Some alwaysRejects\<rparr>))
     = False"
  by (simp add: runTaskNow_def sampleManager_def sampleTask_def alwaysRejects_def)

theorem runTaskNow_outcome_witness:
  "runTaskNow sampleHost ''nope'' sampleManager = (False, sampleManager) \<and>
   runTaskNow sampleHost ''t1'' (sampleManager\<lparr>onExecuteCallback := None\<rparr>) =
     (False, sampleManager\<lparr>onExecuteCallback := None\<rparr>) \<and>
   fst (runTaskNow sampleHost ''t1'' (sampleManager\<lparr>tasks := [sampleTask\<lparr>enabled := False, nextRun := None\<rparr>]\<rparr>)) = True \<and>
   map_get (tasks (snd (runTaskNow sampleHost ''t1'' sampleManager))) ''t1'' =
     Some (sampleTask\<lparr>lastRun := Some 120000\<rparr>) \<and>
   calls (snd (runTaskNow sampleHost ''t1'' sampleManager)) = [sampleTask] \<and>
   fst (runTaskNow sampleHost ''t1'' (sampleManager\<lparr>onExecuteCallback := Some alwaysRejects\<rparr>)) = False \<and>
   tasks (snd (runTaskNow sampleHost ''t1'' (sampleManager\<lparr>onExecuteCallback := Some alwaysRejects\<rparr>))) = [sampleTask]"
proof -
  have n: "map_get (tasks sampleManager) ''nope'' = None"
    by (simp add: sampleManager_def sampleTask_def)
  have s: "map_get (tasks sampleManager) ''t1'' = Some sampleTask"
    by (simp add: sampleManager_def sampleTask_def)
  have s': "map_get (tasks (sampleManager\<lparr>tasks := [sampleTask\<lparr>enabled := False, nextRun := None\<rparr>]\<rparr>)) ''t1''
      = Some (sampleTask\<lparr>enabled := False, nextRun := None\<rparr>)"
    by (simp add: sampleTask_def)
  have c: "onExecuteCallback sampleManager = Some alwaysResolves"
    by (simp add: sampleManager_def)
  have r: "alwaysResolves t = Resolved" "alwaysRejects t \<noteq> Resolved" for t
    by (simp_all add: alwaysResolves_def alwaysRejects_def)
  have t: "tasks sampleManager = [sampleTask]" "calls sampleManager = []" "clock sampleHost = 120000"
    by (simp_all add: sampleManager_def sampleHost_def)
  show ?thesis
    using runTaskNow_outcome [of sampleManager "''nope''" sampleHost sampleTask alwaysResolves]
          runTaskNow_outcome [of "sampleManager\<lparr>onExecuteCallback := None\<rparr>" "''t1''" sampleHost sampleTask alwaysResolves]
          runTaskNow_outcome [of "sampleManager\<lparr>tasks := [sampleTask\<lparr>enabled := False, nextRun := None\<rparr>]\<rparr>" "''t1''"
              sampleHost "sampleTask\<lparr>enabled := False, nextRun := None\<rparr>" alwaysResolves]
          runTaskNow_outcome [of sampleManager "''t1''" sampleHost sampleTask alwaysResolves]
          runTaskNow_outcome [of "sampleManager\<lparr>onExecuteCallback := Some alwaysRejects\<rparr>" "''t1''" sampleHost sampleTask alwaysRejects]
          n s s' c r t
    by simp
qed

section \<open>Toggling twice (C6)\<close>

text \<open>
  C6, as amended.  For a stored task, two calls of \<open>toggleTask\<close> in succession leave the
  task as it was except for \<open>updatedAt\<close> and \<open>nextRun\<close>; in particular \<open>enabled\<close> has its
  original value.  Exactly one of the two calls enables the task, and \<open>nextRun\<close> is what
  \<open>getNextRun\<close> computed in that call (the second call for a task that was enabled, the
  first for one that was disabled); disabling does not touch it.  So afterwards \<open>nextRun\<close>
  is present iff the expression could be evaluated in the enabling call, whatever the final
  value of \<open>enabled\<close>.
\<close>

theorem toggle_twice:
  assumes "map_get (tasks m) k = Some task"
  shows "map_get (tasks (snd (toggleTask h2 k (snd (toggleTask h1 k m))))) k =
           Some (task\<lparr>updatedAt := clock h2,
                       nextRun := getNextRun (if enabled task then h2 else h1)
                                    (cronExpression task) None\<rparr>)"
proof -
  have key: "task_id task = k" using assms by (rule map_get_key)
  let ?t1 = "task\<lparr>enabled := \<not> enabled task, updatedAt := clock h1\<rparr>"
  let ?t1' = "if enabled ?t1 then ?t1\<lparr>nextRun := getNextRun h1 (cronExpression ?t1) None\<rparr> else ?t1"
  have first: "map_get (tasks (snd (toggleTask h1 k m))) k = Some ?t1'"
    using assms key by (simp add: toggleTask_def Let_def map_get_map_set)
  have k1: "task_id ?t1' = k" using key by simp
  show ?thesis
    using first k1
    by (cases "enabled task") (simp_all add: toggleTask_def [of h2] Let_def map_get_map_set)
qed

text \<open>
  C6 as stated fails for a task that starts disabled: after two calls it is disabled again,
  its expression is valid, and it has the \<open>nextRun\<close> computed by the first call.
\<close>

theorem toggle_twice_disabled_counterexample:
  "validateCronExpression sampleHost (cronExpression sampleTask) = Inr True \<and>
   map_get (tasks (snd (toggleTask sampleHost ''t1'' (snd (toggleTask sampleHost ''t1''
       (sampleManager\<lparr>tasks := [sampleTask\<lparr>enabled := False, nextRun := None\<rparr>]\<rparr>)))))) ''t1'' =
     Some (sampleTask\<lparr>enabled := False, nextRun := Some 180000, updatedAt := 120000\<rparr>)"
  by (simp add: toggleTask_def Let_def getNextRun_def everyMinute_def sampleHost_def
      sampleTask_def getTimeZone_def validateCronExpression_def trim_def isWhiteSpace_def)

theorem toggle_twice_witness:
  "map_get (tasks (snd (toggleTask (sampleHost\<lparr>clock := 240000\<rparr>) ''t1''
       (snd (toggleTask sampleHost ''t1'' sampleManager))))) ''t1'' =
     Some (sampleTask\<lparr>updatedAt := 240000, nextRun := Some 300000\<rparr>)"
proof -
  have s: "map_get (tasks sampleManager) ''t1'' = Some sampleTask"
    by (simp add: sampleManager_def sampleTask_def)
  show ?thesis
    using toggle_twice [OF s, of "sampleHost\<lparr>clock := 240000\<rparr>" sampleHost]
    by (simp add: getNextRun_def everyMinute_def sampleHost_def sampleTask_def getTimeZone_def)
qed

section \<open>Malformed cron strings (C2)\<close>

text \<open>
  Validation refuses every malformed string, \<open>createTask\<close> throws before it touches the
  manager, and so does \<open>updateTask\<close> for a malformed string that is not empty.
\<close>

lemma validate_rejects_malformed:
  "malformed h s \<Longrightarrow> validateCronExpression h s = Inl InvalidExpression"
  by (auto simp: malformed_def validateCronExpression_def)

lemma validate_accepts_only_wellformed:
  "validateCronExpression h s = Inr b \<Longrightarrow> \<not> malformed h s"
  by (auto simp: malformed_def validateCronExpression_def split: if_splits option.splits)


lemma updateTask_rejects_nonempty_malformed:
  "malformed h s \<Longrightarrow> s \<noteq> [] \<Longrightarrow> map_get (tasks m) k = Some task \<Longrightarrow>
   cronExpression_upd updates = Some s \<Longrightarrow>
   updateTask h k updates m = Inl InvalidExpression"
  by (simp add: updateTask_def validate_rejects_malformed)

text \<open>
  C2 at the empty string.  \<open>updateTask\<close> validates under the test
  \<open>if (updates.cronExpression)\<close>, which is false for the empty string, and applies the
  update under the test \<open>!== undefined\<close>, which is true for it.  The empty string, which
  validation refuses, is therefore stored as the task's expression, \<open>nextRun\<close> is
  recomputed from it, the collection is saved and the change notification fires.
\<close>

theorem updateTask_stores_empty_cron:
  "malformed sampleHost [] \<and>
   validateCronExpression sampleHost [] = Inl InvalidExpression \<and>
   updateTask sampleHost ''t1'' (noUpdates\<lparr>cronExpression_upd := Some []\<rparr>) sampleManager =
     Inr (Some (sampleTask\<lparr>cronExpression := [], nextRun := None, updatedAt := 120000\<rparr>),
          sampleManager
            \<lparr>tasks := [sampleTask\<lparr>cronExpression := [], nextRun := None, updatedAt := 120000\<rparr>],
             storage := [serializeTask
                           (sampleTask\<lparr>cronExpression := [], nextRun := None, updatedAt := 120000\<rparr>)],
             notifications := 1\<rparr>)"
  by (simp add: malformed_def validateCronExpression_def updateTask_def applyUpdates_def
      noUpdates_def sampleManager_def sampleTask_def sampleHost_def getNextRun_def
      everyMinute_def getTimeZone_def saveTasks_def notifyTasksChanged_def Let_def)

section \<open>Stopping the scheduler (C5)\<close>

text \<open>
  \<open>stopScheduler\<close> cancels the recurring timer whose handle the manager holds, and does
  nothing when it holds none.  It never touches an alignment timer: the handle returned by
  \<open>setTimeout\<close> is not kept.
\<close>

lemma stopScheduler_idle: "schedulerInterval m = None \<Longrightarrow> stopScheduler m = m"
  by (simp add: stopScheduler_def)

lemma stopScheduler_cancels_interval:
  "schedulerInterval m = Some handle \<Longrightarrow>
   schedulerInterval (stopScheduler m) = None \<and>
   handle \<notin> set (activeIntervals (stopScheduler m)) \<and>
   intervalFires h handle (stopScheduler m) = None"
  by (simp add: stopScheduler_def intervalFires_def)

lemma stopScheduler_keeps_timeouts:
  "pendingTimeouts (stopScheduler m) = pendingTimeouts m"
  by (simp add: stopScheduler_def split: option.splits)

text \<open>
  C5 for a stop between start and the firing of the alignment timer.  The timer is still
  pending after \<open>stopScheduler\<close>; when it fires, the poll tick runs (the sample task is
  dispatched) and the recurring timer is installed, which goes on ticking.
\<close>

theorem stop_during_alignment_still_ticks:
  "pendingTimeouts (stopScheduler (startScheduler alwaysResolves sampleManager)) = 1 \<and>
   map_option calls
     (alignmentTimeoutFires sampleHost
        (stopScheduler (startScheduler alwaysResolves sampleManager))) = Some [sampleTask] \<and>
   map_option activeIntervals
     (alignmentTimeoutFires sampleHost
        (stopScheduler (startScheduler alwaysResolves sampleManager))) = Some [0] \<and>
   map_option (\<lambda>m. map_option calls (intervalFires (sampleHost\<lparr>clock := 180000\<rparr>) 0 m))
     (alignmentTimeoutFires sampleHost
        (stopScheduler (startScheduler alwaysResolves sampleManager))) =
     Some (Some [sampleTask, sampleTask\<lparr>lastRun := Some 120000, nextRun := Some 180000\<rparr>])"
  by (simp add: stopScheduler_def startScheduler_def alignmentTimeoutFires_def intervalFires_def
      checkAndExecuteTasks_def sampleManager_def sampleHost_def sampleTask_def Let_def
      shouldTaskRunInCurrentWorkspace_def truncMinute_def execute_def alwaysResolves_def
      getNextRun_def everyMinute_def getTimeZone_def)

section \<open>Saving and reloading (C7)\<close>

lemma loadLoop_tasks:
  "distinct (map task_id (tasks m) @ map s_id rs) \<Longrightarrow>
   tasks (loadLoop h rs m) = tasks m @ map (restoreTask h) rs"
proof (induction rs arbitrary: m)
  case Nil
  then show ?case by simp
next
  case (Cons r rs)
  have rid: "task_id (restoreTask h r) = s_id r" by (simp add: restoreTask_def)
  have new: "task_id (restoreTask h r) \<notin> task_id ` set (tasks m)"
    using Cons.prems rid by auto
  let ?m' = "m\<lparr>tasks := map_set (tasks m) (restoreTask h r)\<rparr>"
  have t': "map_set (tasks m) (restoreTask h r) = tasks m @ [restoreTask h r]"
    using new by (rule map_set_append)
  have "distinct (map task_id (tasks ?m') @ map s_id rs)"
    using Cons.prems rid by (auto simp: t')
  then have "tasks (loadLoop h rs ?m') = tasks ?m' @ map (restoreTask h) rs"
    by (rule Cons.IH)
  then show ?case by (simp add: t')
qed

lemma restoreTask_serializeTask:
  "restoreTask h (omitFields noScope noSource (serializeTask t)) =
     t\<lparr>scope := (if noScope then ScopeGlobal else scope t),
       promptSource := (if noSource then Inline else promptSource t),
       nextRun := getNextRun h (cronExpression t) None\<rparr>"
  by (cases "lastRun t")
     (simp_all add: restoreTask_def omitFields_def serializeTask_def toJSON_def)

text \<open>
  C7.  Take the collection as \<open>saveTasks\<close> writes it, drop \<open>scope\<close> and \<open>promptSource\<close>
  from any of its records (\<open>noScope\<close> and \<open>noSource\<close> choose the records), and construct a
  manager from the result.  Its tasks are the original tasks, in order, with a dropped
  \<open>scope\<close> filled in as \<open>global\<close>, a dropped \<open>promptSource\<close> as \<open>inline\<close>, the dates read
  back to the same instants, and \<open>nextRun\<close> computed afresh from the cron expression at load
  time, whatever was stored.  The keys of a \<open>Map\<close> are distinct, which is the hypothesis.
\<close>

theorem load_roundtrip:
  assumes "distinct (map task_id (tasks m))"
  shows "tasks (newManager h (map (\<lambda>r. omitFields (noScope r) (noSource r) r)
                                  (storage (saveTasks m)))) =
         map (\<lambda>t. t\<lparr>scope := (if noScope (serializeTask t) then ScopeGlobal else scope t),
                     promptSource := (if noSource (serializeTask t) then Inline
                                      else promptSource t),
                     nextRun := getNextRun h (cronExpression t) None\<rparr>)
             (tasks m)"
proof -
  let ?rs = "map (\<lambda>r. omitFields (noScope r) (noSource r) r) (storage (saveTasks m))"
  have ids: "map s_id ?rs = map task_id (tasks m)"
    by (simp add: comp_def omitFields_def serializeTask_def)
  let ?m0 = "\<lparr> tasks = [], schedulerInterval = None, onTasksChangedCallback = False,
                onExecuteCallback = None, storage = ?rs, notifications = 0, calls = [],
                console = [], pendingTimeouts = 0, activeIntervals = [], nextHandle = 0 \<rparr>"
  have "distinct (map task_id (tasks ?m0) @ map s_id ?rs)"
    using assms by (simp only: ids) simp
  then have "tasks (loadLoop h ?rs ?m0) = tasks ?m0 @ map (restoreTask h) ?rs"
    by (rule loadLoop_tasks)
  then have "tasks (newManager h ?rs) = map (restoreTask h) ?rs"
    by (simp add: newManager_def loadTasks_def)
  then show ?thesis
    by (simp add: comp_def restoreTask_serializeTask)
qed

theorem load_roundtrip_witness:
  "tasks (newManager (sampleHost\<lparr>clock := 600000\<rparr>)
            (map (\<lambda>r. omitFields (s_id r = ''t1'') (s_id r = ''t3'') r)
               (storage (saveTasks (sampleManager\<lparr>tasks := [repoATask, sampleTask]\<rparr>))))) =
     [repoATask\<lparr>promptSource := Inline, nextRun := Some 660000\<rparr>,
      sampleTask\<lparr>scope := ScopeGlobal, nextRun := Some 660000\<rparr>]"
proof -
  have d: "distinct (map task_id (tasks (sampleManager\<lparr>tasks := [repoATask, sampleTask]\<rparr>)))"
    by (simp add: repoATask_def sampleTask_def)
  show ?thesis
    using load_roundtrip [OF d, of "sampleHost\<lparr>clock := 600000\<rparr>"
            "\<lambda>r. s_id r = ''t1''" "\<lambda>r. s_id r = ''t3''"]
    by (simp add: serializeTask_def repoATask_def sampleTask_def getNextRun_def
        everyMinute_def sampleHost_def getTimeZone_def)
qed

section \<open>Workspace path and scope (C3)\<close>





lemma createTask_scope_path:
  "createTask h input m = Inr (t, m') \<Longrightarrow>
   scope t = (case scope_in input of None \<Rightarrow> cfg_defaultScope h | Some s \<Rightarrow> s) \<and>
   workspacePath t = (if scope_in input = Some ScopeWorkspace then workspaceFolder h else None)"
  by (auto simp: createTask_def Let_def split: sum.splits)









text \<open>
  The case the amended statement leaves out.  \<open>createTask\<close> resolves the scope as
  \<open>input.scope || defaultScope\<close> but captures the path under \<open>input.scope === "workspace"\<close>:
  with the scope omitted and the default \<open>workspace\<close>, the task gets scope \<open>workspace\<close> and
  no path, even while a folder is open.
\<close>

lemma createTask_omitted_scope:
  "createTask h input m = Inr (t, m') \<Longrightarrow> scope_in input = None \<Longrightarrow>
   cfg_defaultScope h = ScopeWorkspace \<Longrightarrow>
   scope t = ScopeWorkspace \<and> workspacePath t = None"
  by (auto dest: createTask_scope_path)

lemma createTask_omitted_scope_example:
  "workspaceFolder sampleHost = Some ''/repoA'' \<and> scope_in sampleInput = None \<and>
   map scope (tasks (performAll [(sampleHost, CreateTask sampleInput)]
                       (newManager sampleHost []))) = [ScopeWorkspace] \<and>
   map workspacePath (tasks (performAll [(sampleHost, CreateTask sampleInput)]
                       (newManager sampleHost []))) = [None]"
  by (simp add: newManager_def loadTasks_def createTask_def validateCronExpression_def
      sampleInput_def sampleHost_def everyMinute_def trim_def isWhiteSpace_def Let_def)

section \<open>Duplicating a task (C10)\<close>




section \<open>Due selection in a poll tick (C1)\<close>



lemma map_get_map:
  "(\<And>t. task_id (f t) = task_id t) \<Longrightarrow> map_get (map f ts) k = map_option f (map_get ts k)"
  by (induction ts) auto

lemma tick_lookup:
  assumes "distinct (map task_id (tasks m))" and "task \<in> set (tasks m)" and "cfg_enabled h"
  shows "map_get (tasks (checkAndExecuteTasks h m)) (task_id task) =
           Some (if isDue h (clock h) task then advance h (clock h) task else task)"
proof -
  have "map_get (tasks (checkAndExecuteTasks h m)) (task_id task) =
        map_option (\<lambda>t. if isDue h (clock h) t then advance h (clock h) t else t)
          (map_get (tasks m) (task_id task))"
    using assms by (simp add: tick_tasks map_get_map)
  then show ?thesis using assms by (simp add: map_get_distinct)
qed




section \<open>A throwing executor (C4)\<close>

lemma execute_console:
  "console (execute t m) =
     console m @
       (case onExecuteCallback m of
          None \<Rightarrow> []
        | Some f \<Rightarrow> (case f t of Resolved \<Rightarrow> [] | Rejected err \<Rightarrow> [''Task execution error: '' @ err]))"
  by (simp add: execute_def split: option.splits ExecResult.splits)

lemma tickLoop_console:
  "onExecuteCallback m = Some f \<Longrightarrow>
   console (tickLoop h now todo m) =
     console m @
       concat (map (\<lambda>t. case f t of Resolved \<Rightarrow> [] | Rejected err \<Rightarrow> [''Task execution error: '' @ err])
                 (filter (isDue h now) todo))"
  by (induction todo arbitrary: m)
     (simp_all add: tickLoop_step execute_console del: tickLoop.simps(2))

text \<open>
  C4.  Let \<open>A\<close> and \<open>B\<close> be stored tasks that are both due in a tick, and let the execute
  callback throw for \<open>A\<close>.  Then both \<open>A\<close> and \<open>B\<close> are dispatched in that tick.  The error
  is caught: it is written to the console and the tick completes.  Afterwards \<open>A\<close> has
  \<open>lastRun = now\<close> and \<open>nextRun = getNextRun(cron, now)\<close>, the saved collection is the
  collection in memory, and tasks, saved collection, notifications and dispatched tasks
  are those of the same tick with any other callback, in particular one that succeeds.
\<close>

theorem executor_failure_resilience:
  assumes "distinct (map task_id (tasks m))"
    and "A \<in> set (tasks m)" and "B \<in> set (tasks m)"
    and "cfg_enabled h" and "onExecuteCallback m = Some onExecute"
    and "isDue h (clock h) A" and "isDue h (clock h) B"
    and "onExecute A = Rejected err"
  shows "A \<in> set (dispatchedBy h m) \<and> B \<in> set (dispatchedBy h m) \<and>
         (''Task execution error: '' @ err) \<in> set (console (checkAndExecuteTasks h m)) \<and>
         map_get (tasks (checkAndExecuteTasks h m)) (task_id A) =
           Some (A\<lparr>lastRun := Some (clock h),
                   nextRun := getNextRun h (cronExpression A) (Some (clock h))\<rparr>) \<and>
         storage (checkAndExecuteTasks h m) = map serializeTask (tasks (checkAndExecuteTasks h m)) \<and>
         tasks (checkAndExecuteTasks h m) =
           tasks (checkAndExecuteTasks h (m\<lparr>onExecuteCallback := Some other\<rparr>)) \<and>
         storage (checkAndExecuteTasks h m) =
           storage (checkAndExecuteTasks h (m\<lparr>onExecuteCallback := Some other\<rparr>)) \<and>
         notifications (checkAndExecuteTasks h m) =
           notifications (checkAndExecuteTasks h (m\<lparr>onExecuteCallback := Some other\<rparr>)) \<and>
         dispatchedBy h m = dispatchedBy h (m\<lparr>onExecuteCallback := Some other\<rparr>)"
proof -
  let ?ok = "m\<lparr>onExecuteCallback := Some other\<rparr>"
  have disp: "dispatchedBy h m = filter (isDue h (clock h)) (tasks m)"
    using assms by (simp add: tick_dispatched)
  have "A \<in> set (dispatchedBy h m)" "B \<in> set (dispatchedBy h m)"
    using assms disp by simp_all
  moreover have "(''Task execution error: '' @ err) \<in> set (console (checkAndExecuteTasks h m))"
  proof -
    have "console (checkAndExecuteTasks h m) =
       console m @
       concat (map (\<lambda>t. case onExecute t of Resolved \<Rightarrow> []
                        | Rejected err \<Rightarrow> [''Task execution error: '' @ err])
                 (filter (isDue h (clock h)) (tasks m)))"
      using assms by (simp add: checkAndExecuteTasks_def tickLoop_console)
    moreover have "A \<in> set (filter (isDue h (clock h)) (tasks m))" using assms by simp
    ultimately show ?thesis using assms(8) by (auto intro!: bexI [of _ A])
  qed
  moreover have "map_get (tasks (checkAndExecuteTasks h m)) (task_id A) =
           Some (A\<lparr>lastRun := Some (clock h),
                   nextRun := getNextRun h (cronExpression A) (Some (clock h))\<rparr>)"
    using assms by (simp add: tick_lookup advance_def)
  moreover have "storage (checkAndExecuteTasks h m) =
                 map serializeTask (tasks (checkAndExecuteTasks h m))"
    using assms by (auto simp: tick_storage)
  moreover have t: "tasks (checkAndExecuteTasks h m) = tasks (checkAndExecuteTasks h ?ok)"
    using assms by (simp add: tick_tasks)
  moreover have "storage (checkAndExecuteTasks h m) = storage (checkAndExecuteTasks h ?ok)"
    using assms t by (auto simp: tick_storage)
  moreover have "notifications (checkAndExecuteTasks h m) =
                 notifications (checkAndExecuteTasks h ?ok)"
    by (simp add: tick_notifications)
  moreover have "dispatchedBy h m = dispatchedBy h ?ok"
    using assms by (simp add: tick_dispatched)
  ultimately show ?thesis by simp
qed

theorem executor_failure_resilience_witness:
  "dispatchedBy sampleHost
     (sampleManager\<lparr>tasks := [sampleTask, otherTask], onExecuteCallback := Some alwaysRejects\<rparr>) =
     [sampleTask, otherTask] \<and>
   console (checkAndExecuteTasks sampleHost
     (sampleManager\<lparr>tasks := [sampleTask, otherTask], onExecuteCallback := Some alwaysRejects\<rparr>)) =
     [''Task execution error: boom'', ''Task execution error: boom''] \<and>
   tasks (checkAndExecuteTasks sampleHost
     (sampleManager\<lparr>tasks := [sampleTask, otherTask], onExecuteCallback := Some alwaysRejects\<rparr>)) =
     [sampleTask\<lparr>lastRun := Some 120000, nextRun := Some 180000\<rparr>,
      otherTask\<lparr>lastRun := Some 120000, nextRun := Some 180000\<rparr>] \<and>
   storage (checkAndExecuteTasks sampleHost
     (sampleManager\<lparr>tasks := [sampleTask, otherTask], onExecuteCallback := Some alwaysRejects\<rparr>)) =
     [serializeTask (sampleTask\<lparr>lastRun := Some 120000, nextRun := Some 180000\<rparr>),
      serializeTask (otherTask\<lparr>lastRun := Some 120000, nextRun := Some 180000\<rparr>)]"
proof -
  let ?m = "sampleManager\<lparr>tasks := [sampleTask, otherTask], onExecuteCallback := Some alwaysRejects\<rparr>"
  have d: "distinct (map task_id (tasks ?m))"
    by (simp add: sampleTask_def otherTask_def)
  have a: "sampleTask \<in> set (tasks ?m)" and b: "otherTask \<in> set (tasks ?m)" by simp_all
  have en: "cfg_enabled sampleHost" by (simp add: sampleHost_def)
  have cb: "onExecuteCallback ?m = Some alwaysRejects" by simp
  have dueA: "isDue sampleHost (clock sampleHost) sampleTask"
    by (simp add: isDue_def sampleTask_def sampleHost_def shouldTaskRunInCurrentWorkspace_def)
  have dueB: "isDue sampleHost (clock sampleHost) otherTask"
    by (simp add: isDue_def otherTask_def sampleTask_def sampleHost_def
        shouldTaskRunInCurrentWorkspace_def)
  have rej: "alwaysRejects sampleTask = Rejected ''boom''" by (simp add: alwaysRejects_def)
  have tk: "tasks (checkAndExecuteTasks sampleHost (?m\<lparr>onExecuteCallback := Some alwaysResolves\<rparr>)) =
     [sampleTask\<lparr>lastRun := Some 120000, nextRun := Some 180000\<rparr>,
      otherTask\<lparr>lastRun := Some 120000, nextRun := Some 180000\<rparr>]"
    by (simp add: checkAndExecuteTasks_def sampleHost_def sampleTask_def otherTask_def Let_def
        shouldTaskRunInCurrentWorkspace_def truncMinute_def getNextRun_def everyMinute_def
        getTimeZone_def)
  have dk: "dispatchedBy sampleHost (?m\<lparr>onExecuteCallback := Some alwaysResolves\<rparr>) =
     [sampleTask, otherTask]"
    by (simp add: dispatchedBy_def checkAndExecuteTasks_def sampleHost_def sampleTask_def
        otherTask_def sampleManager_def Let_def execute_def alwaysResolves_def
        shouldTaskRunInCurrentWorkspace_def truncMinute_def)
  have cs: "console (checkAndExecuteTasks sampleHost ?m) =
     [''Task execution error: boom'', ''Task execution error: boom'']"
    by (simp add: checkAndExecuteTasks_def sampleHost_def sampleTask_def otherTask_def
        sampleManager_def Let_def execute_def alwaysRejects_def
        shouldTaskRunInCurrentWorkspace_def truncMinute_def)
  show ?thesis
    using executor_failure_resilience [OF d a b en cb dueA dueB rej, of alwaysResolves] tk dk cs
    by simp
qed

end
